theory Spec2Isabelle
  imports Main "HOL-Library.Word"
begin

section \<open>Media streams: stream.c\<close>

subsection \<open>Data\<close>

text \<open>
  GLib's \<^verbatim>\<open>GTimeVal\<close>: seconds and microseconds. The stream code only copies such a
  value, so the width of the two \<^verbatim>\<open>glong\<close> members plays no role.
\<close>

record GTimeVal =
  tv_sec :: int
  tv_usec :: int

text \<open>
  Modelled from the spec: \<^verbatim>\<open>Packet\<close> and \<^verbatim>\<open>packet_time\<close> belong to packet.h and
  packet.c, which are not among the sources. The glossary describes a packet as one captured
  network frame with an associated capture timestamp; \<^verbatim>\<open>packet_time\<close> reads that
  timestamp.
\<close>

record Packet =
  capture_ts :: GTimeVal

definition packet_time :: "Packet \<Rightarrow> GTimeVal" where
  "packet_time packet = capture_ts packet"

text \<open>
  The SDP and RTP structures are declared in headers outside the sources. Of each, the
  members that \<^verbatim>\<open>stream_get_format\<close> reads are kept: \<^verbatim>\<open>format->id\<close> (an unsigned
  number, compared by value with the 8-bit format code), \<^verbatim>\<open>format->alias\<close>,
  \<^verbatim>\<open>media->formats\<close> and \<^verbatim>\<open>encoding->format\<close>. A \<^verbatim>\<open>char *\<close> is a
  \<open>string option\<close>, \<open>None\<close> being the null pointer.
\<close>

record PacketSdpFormat =
  id_sdp :: nat
  "alias" :: "string option"

record PacketSdpMedia =
  formats :: "PacketSdpFormat list"

record PacketRtpEncoding =
  format :: "string option"

text \<open>
  \<^verbatim>\<open>struct Stream\<close>. The enumeration \<^verbatim>\<open>StreamType\<close>, \<^verbatim>\<open>Message\<close> and
  \<^verbatim>\<open>Address\<close> come from headers outside the sources and are type parameters; of an
  \<^verbatim>\<open>Address\<close> only the all-zero value left by \<^verbatim>\<open>g_malloc0\<close> is needed, hence the
  class \<open>zero\<close>. The pointers \<^verbatim>\<open>msg\<close> and \<^verbatim>\<open>media\<close> may be null. The counter
  \<^verbatim>\<open>pkt_count\<close> is a \<^verbatim>\<open>guint\<close> (the type \<^verbatim>\<open>stream_get_count\<close> returns), 32 bits
  wide, and \<^verbatim>\<open>fmtcode\<close> is a \<^verbatim>\<open>guint8\<close>. \<^verbatim>\<open>lasttm\<close> holds a reading of
  \<^verbatim>\<open>g_get_monotonic_time\<close>, a \<^verbatim>\<open>gint64\<close> count of microseconds: readings are
  non-negative, so the one subtraction made on them cannot overflow and they are modelled
  as \<open>int\<close>.
\<close>

record ('ty, 'msg, 'addr) Stream =
  "type" :: 'ty
  src :: 'addr
  dst :: 'addr
  media :: "PacketSdpMedia option"
  msg :: "'msg option"
  packets :: "Packet list"
  firsttv :: GTimeVal
  lasttm :: int
  changed :: bool
  fmtcode :: "8 word"
  pkt_count :: "32 word"

subsection \<open>Operations\<close>

text \<open>\<^verbatim>\<open>stream_new\<close>: \<^verbatim>\<open>g_malloc0\<close> zero-fills, then four members are set.\<close>

definition stream_new ::
  "'ty \<Rightarrow> 'msg option \<Rightarrow> PacketSdpMedia option \<Rightarrow> ('ty, 'msg, 'addr::zero) Stream" where
  "stream_new ty m md =
     \<lparr>type = ty, src = 0, dst = 0, media = md, msg = m, packets = [],
      firsttv = \<lparr>tv_sec = 0, tv_usec = 0\<rparr>, lasttm = 0, changed = False,
      fmtcode = 0, pkt_count = 0\<rparr>"

definition stream_set_src ::
  "('ty, 'msg, 'addr) Stream \<Rightarrow> 'addr \<Rightarrow> ('ty, 'msg, 'addr) Stream" where
  "stream_set_src stream a = stream\<lparr>src := a\<rparr>"

definition stream_set_dst ::
  "('ty, 'msg, 'addr) Stream \<Rightarrow> 'addr \<Rightarrow> ('ty, 'msg, 'addr) Stream" where
  "stream_set_dst stream a = stream\<lparr>dst := a\<rparr>"

definition stream_set_data ::
  "('ty, 'msg, 'addr) Stream \<Rightarrow> 'addr \<Rightarrow> 'addr \<Rightarrow> ('ty, 'msg, 'addr) Stream" where
  "stream_set_data stream a b = stream\<lparr>src := a, dst := b\<rparr>"

definition stream_set_format ::
  "('ty, 'msg, 'addr) Stream \<Rightarrow> 8 word \<Rightarrow> ('ty, 'msg, 'addr) Stream" where
  "stream_set_format stream code = stream\<lparr>fmtcode := code\<rparr>"

text \<open>
  \<^verbatim>\<open>stream_add_packet\<close>. The first argument is the value \<^verbatim>\<open>g_get_monotonic_time\<close>
  returns during the call. The four assignments are made in the order of the source; the
  increment is that of a \<^verbatim>\<open>guint\<close> and wraps.
\<close>

definition stream_add_packet ::
  "int \<Rightarrow> ('ty, 'msg, 'addr) Stream \<Rightarrow> Packet \<Rightarrow> ('ty, 'msg, 'addr) Stream" where
  "stream_add_packet now stream packet =
     (let s1 = stream\<lparr>lasttm := now\<rparr>;
          s2 = s1\<lparr>changed := True\<rparr>;
          s3 = s2\<lparr>pkt_count := pkt_count s2 + 1\<rparr>
      in if pkt_count s3 = 1 then s3\<lparr>firsttv := packet_time packet\<rparr> else s3)"

definition stream_get_count :: "('ty, 'msg, 'addr) Stream \<Rightarrow> 32 word" where
  "stream_get_count stream = pkt_count stream"

text \<open>
  The loop of \<^verbatim>\<open>stream_get_format\<close> over the positions of \<^verbatim>\<open>media->formats\<close>:
  \<^verbatim>\<open>for (i = 0; i < g_list_length(formats); i++)\<close>, reading the entry at position
  \<open>i\<close> and returning its alias when its id equals the format code.
\<close>

function sdp_format_scan :: "nat \<Rightarrow> PacketSdpFormat list \<Rightarrow> 8 word \<Rightarrow> string option" where
  "sdp_format_scan i fs code =
     (if i < length fs
      then (if id_sdp (fs ! i) = unat code then alias (fs ! i)
            else sdp_format_scan (Suc i) fs code)
      else None)"
  by pat_completeness auto
termination
  by (relation "measure (\<lambda>(i, fs, code). length fs - i)") auto

declare sdp_format_scan.simps [simp del]

text \<open>
  \<^verbatim>\<open>stream_get_format\<close>. The static payload-type table behind
  \<^verbatim>\<open>packet_rtp_standard_codec\<close> lives in packet_rtp.c, outside the sources, and is the
  first parameter: it yields the table entry of a code, or nothing (a null pointer). The
  stream pointer itself may be null.
\<close>

definition stream_get_format ::
  "(8 word \<Rightarrow> PacketRtpEncoding option) \<Rightarrow> ('ty, 'msg, 'addr) Stream option \<Rightarrow> string option" where
  "stream_get_format packet_rtp_standard_codec stream =
     (case stream of
        None \<Rightarrow> None
      | Some s \<Rightarrow>
          (case media s of
             None \<Rightarrow> None
           | Some md \<Rightarrow>
               (case packet_rtp_standard_codec (fmtcode s) of
                  Some encoding \<Rightarrow> format encoding
                | None \<Rightarrow> sdp_format_scan 0 (formats md) (fmtcode s))))"

definition stream_time :: "('ty, 'msg, 'addr) Stream \<Rightarrow> GTimeVal" where
  "stream_time stream = firsttv stream"

text \<open>
  \<^verbatim>\<open>stream_is_active\<close>. The constant \<^verbatim>\<open>STREAM_INACTIVE_SECS\<close> is defined in
  stream.h, outside the sources, and is the first parameter; the second is the reading of
  \<^verbatim>\<open>g_get_monotonic_time\<close> during the call. The function returns a truth value and
  writes to nothing.
\<close>

definition stream_is_active :: "int \<Rightarrow> int \<Rightarrow> ('ty, 'msg, 'addr) Stream \<Rightarrow> bool" where
  "stream_is_active STREAM_INACTIVE_SECS now stream =
     (now - lasttm stream \<le> STREAM_INACTIVE_SECS)"

text \<open>
  A run of \<^verbatim>\<open>stream_add_packet\<close> calls, each given with the clock reading it sees and
  the packet it is passed, oldest first.
\<close>

fun stream_add_packets ::
  "('ty, 'msg, 'addr) Stream \<Rightarrow> (int \<times> Packet) list \<Rightarrow> ('ty, 'msg, 'addr) Stream" where
  "stream_add_packets stream [] = stream"
| "stream_add_packets stream ((now, packet) # calls) =
     stream_add_packets (stream_add_packet now stream packet) calls"


section \<open>Capture manager: capture.c\<close>

subsection \<open>Data\<close>

text \<open>
  Modelled from the spec: the capture mode tag of a source, one of live, offline-replay and
  listener. The enumeration is declared in capture.h, outside the sources, which name
  \<^verbatim>\<open>CAPTURE_MODE_OFFLINE\<close> only.
\<close>

datatype CaptureMode = CAPTURE_MODE_LIVE | CAPTURE_MODE_OFFLINE | CAPTURE_MODE_LISTENER

text \<open>
  GLib's \<^verbatim>\<open>GSource\<close>, the loop handle of a source. The manager asks one thing of it,
  \<^verbatim>\<open>g_source_is_destroyed\<close>.
\<close>

record GSource =
  destroyed :: bool

definition g_source_is_destroyed :: "GSource \<Rightarrow> bool" where
  "g_source_is_destroyed source = destroyed source"

text \<open>
  \<^verbatim>\<open>CaptureInput\<close> and \<^verbatim>\<open>CaptureOutput\<close> are tables of optional operations
  (function pointers, \<open>None\<close> when null) around a state of the source's or sink's own.
  An operation is called with its own object first: \<^verbatim>\<open>input->filter(input, filter, error)\<close>
  is a function of the expression and the source's state that gives the returned
  \<^verbatim>\<open>gboolean\<close> and the state left behind; \<^verbatim>\<open>output->write(output, packet)\<close> and
  \<^verbatim>\<open>output->close(output)\<close> return nothing and give the sink's new state. The
  \<^verbatim>\<open>GError **\<close> argument is handed on by the manager unread and is left out. The
  member \<^verbatim>\<open>filter\<close> is named \<open>filter_fn\<close> here.
\<close>

record 'p CaptureInput =
  mode :: CaptureMode
  source :: GSource
  input_priv :: 'p
  filter_fn :: "(string option \<Rightarrow> 'p \<Rightarrow> bool \<times> 'p) option"

record 'q CaptureOutput =
  output_priv :: 'q
  "write" :: "(Packet \<Rightarrow> 'q \<Rightarrow> 'q) option"
  close :: "('q \<Rightarrow> 'q) option"

text \<open>
  \<^verbatim>\<open>CaptureManager\<close>: the two \<^verbatim>\<open>GSList\<close>s in registration order, the stored filter
  (\<open>filter_mgr\<close>, a \<^verbatim>\<open>gchar *\<close>), the pause flag and the key file. The main loop and the
  thread are GLib handles; what is done to them shows in the call log below.
\<close>

record ('p, 'q) CaptureManager =
  inputs :: "'p CaptureInput list"
  outputs :: "'q CaptureOutput list"
  filter_mgr :: "string option"
  paused :: bool
  keyfile :: "string option"

text \<open>
  The calls a manager function makes to operations of its sources and sinks and to GLib,
  in the order it makes them. A source or sink is named by its position in the manager's
  list, counted from 0.
\<close>

datatype call =
    InputFilter nat "string option"
  | OutputClose nat
  | OutputWrite nat Packet
  | MainLoopQuit
  | ThreadJoin

subsection \<open>Operations\<close>

definition capture_manager_new :: "('p, 'q) CaptureManager" where
  "capture_manager_new =
     \<lparr>inputs = [], outputs = [], filter_mgr = None, paused = False, keyfile = None\<rparr>"

text \<open>
  \<^verbatim>\<open>capture_manager_stop\<close>: the loop over \<^verbatim>\<open>manager->outputs\<close>, whose current
  entry stands at position \<open>i\<close>, then \<^verbatim>\<open>g_main_loop_quit\<close> and
  \<^verbatim>\<open>g_thread_join\<close>. The function returns nothing; the model gives the manager left
  behind and the calls made, oldest first.
\<close>

fun close_outputs :: "nat \<Rightarrow> 'q CaptureOutput list \<Rightarrow> 'q CaptureOutput list \<times> call list" where
  "close_outputs i [] = ([], [])"
| "close_outputs i (output # le) =
     (case close output of
        None \<Rightarrow>
          (let (rest, calls) = close_outputs (Suc i) le in (output # rest, calls))
      | Some f \<Rightarrow>
          (let output' = output\<lparr>output_priv := f (output_priv output)\<rparr>;
               (rest, calls) = close_outputs (Suc i) le
           in (output' # rest, OutputClose i # calls)))"

definition capture_manager_stop ::
  "('p, 'q) CaptureManager \<Rightarrow> ('p, 'q) CaptureManager \<times> call list" where
  "capture_manager_stop manager =
     (let (outs, calls) = close_outputs 0 (outputs manager)
      in (manager\<lparr>outputs := outs\<rparr>, calls @ [MainLoopQuit, ThreadJoin]))"

text \<open>\<^verbatim>\<open>g_strdup\<close>: a copy of the same characters, null for null.\<close>

definition g_strdup :: "string option \<Rightarrow> string option" where
  "g_strdup str = str"

text \<open>
  \<^verbatim>\<open>capture_manager_set_filter\<close>. The loop over \<^verbatim>\<open>manager->inputs\<close> gives whether
  it ran to the end, the sources as it leaves them and the calls made; a refusal ends it at
  once.
\<close>

fun filter_inputs ::
  "nat \<Rightarrow> 'p CaptureInput list \<Rightarrow> string option \<Rightarrow> bool \<times> 'p CaptureInput list \<times> call list" where
  "filter_inputs i [] flt = (True, [], [])"
| "filter_inputs i (input # le) flt =
     (case filter_fn input of
        None \<Rightarrow>
          (let (ok, rest, calls) = filter_inputs (Suc i) le flt in (ok, input # rest, calls))
      | Some f \<Rightarrow>
          (let (accepted, p) = f flt (input_priv input);
               input' = input\<lparr>input_priv := p\<rparr>
           in if \<not> accepted then (False, input' # le, [InputFilter i flt])
              else (let (ok, rest, calls) = filter_inputs (Suc i) le flt
                    in (ok, input' # rest, InputFilter i flt # calls))))"

definition capture_manager_set_filter ::
  "('p, 'q) CaptureManager \<Rightarrow> string option \<Rightarrow> bool \<times> ('p, 'q) CaptureManager \<times> call list" where
  "capture_manager_set_filter manager flt =
     (let (ok, ins, calls) = filter_inputs 0 (inputs manager) flt
      in if \<not> ok then (False, manager\<lparr>inputs := ins, filter_mgr := None\<rparr>, calls)
         else (True, manager\<lparr>inputs := ins, filter_mgr := g_strdup flt\<rparr>, calls))"

definition capture_manager_filter :: "('p, 'q) CaptureManager \<Rightarrow> string option" where
  "capture_manager_filter manager = filter_mgr manager"

definition capture_manager_add_input ::
  "('p, 'q) CaptureManager \<Rightarrow> 'p CaptureInput \<Rightarrow> ('p, 'q) CaptureManager" where
  "capture_manager_add_input manager input = manager\<lparr>inputs := inputs manager @ [input]\<rparr>"

definition capture_manager_add_output ::
  "('p, 'q) CaptureManager \<Rightarrow> 'q CaptureOutput \<Rightarrow> ('p, 'q) CaptureManager" where
  "capture_manager_add_output manager output = manager\<lparr>outputs := outputs manager @ [output]\<rparr>"

text \<open>\<^verbatim>\<open>capture_manager_output_packet\<close>: the loop over \<^verbatim>\<open>manager->outputs\<close>.\<close>

fun write_outputs ::
  "nat \<Rightarrow> 'q CaptureOutput list \<Rightarrow> Packet \<Rightarrow> 'q CaptureOutput list \<times> call list" where
  "write_outputs i [] packet = ([], [])"
| "write_outputs i (output # l) packet =
     (case write output of
        None \<Rightarrow>
          (let (rest, calls) = write_outputs (Suc i) l packet in (output # rest, calls))
      | Some f \<Rightarrow>
          (let output' = output\<lparr>output_priv := f packet (output_priv output)\<rparr>;
               (rest, calls) = write_outputs (Suc i) l packet
           in (output' # rest, OutputWrite i packet # calls)))"

definition capture_manager_output_packet ::
  "('p, 'q) CaptureManager \<Rightarrow> Packet \<Rightarrow> ('p, 'q) CaptureManager \<times> call list" where
  "capture_manager_output_packet manager packet =
     (let (outs, calls) = write_outputs 0 (outputs manager) packet
      in (manager\<lparr>outputs := outs\<rparr>, calls))"

text \<open>
  \<^verbatim>\<open>capture_status_desc\<close>. The three counters are C \<^verbatim>\<open>int\<close>s that start at 0 and
  go up by one per source; they are modelled as \<open>int\<close>, which they agree with for any
  list of fewer than \<open>2 ^ 31\<close> sources. The block under \<^verbatim>\<open>USE_HEP\<close> is guarded by
  the constant \<^verbatim>\<open>FALSE\<close> and does nothing.
\<close>

fun count_inputs :: "'p CaptureInput list \<Rightarrow> int \<times> int \<times> int \<Rightarrow> int \<times> int \<times> int" where
  "count_inputs [] (online, offline, loading) = (online, offline, loading)"
| "count_inputs (input # l) (online, offline, loading) =
     (if mode input = CAPTURE_MODE_OFFLINE
      then count_inputs l
             (online, offline + 1,
              if \<not> g_source_is_destroyed (source input) then loading + 1 else loading)
      else count_inputs l (online + 1, offline, loading))"

definition capture_status_desc :: "('p, 'q) CaptureManager \<Rightarrow> string" where
  "capture_status_desc manager =
     (let (online, offline, loading) = count_inputs (inputs manager) (0, 0, 0) in
      if paused manager then
        (if online > 0 \<and> offline = 0 then ''Online (Paused)''
         else if online = 0 \<and> offline > 0 then ''Offline (Paused)''
         else ''Mixed (Paused)'')
      else if loading > 0 then
        (if online > 0 \<and> offline = 0 then ''Online (Loading)''
         else if online = 0 \<and> offline > 0 then ''Offline (Loading)''
         else ''Mixed (Loading)'')
      else
        (if online > 0 \<and> offline = 0 then ''Online''
         else if online = 0 \<and> offline > 0 then ''Offline''
         else ''Mixed''))"

definition capture_keyfile :: "('p, 'q) CaptureManager \<Rightarrow> string option" where
  "capture_keyfile manager = keyfile manager"

text \<open>\<^verbatim>\<open>capture_is_online\<close>: the loop returns at the first offline source.\<close>

fun inputs_online :: "'p CaptureInput list \<Rightarrow> bool" where
  "inputs_online [] = True"
| "inputs_online (input # l) =
     (if mode input = CAPTURE_MODE_OFFLINE then False else inputs_online l)"

definition capture_is_online :: "('p, 'q) CaptureManager \<Rightarrow> bool" where
  "capture_is_online manager = inputs_online (inputs manager)"

definition capture_sources_count :: "('p, 'q) CaptureManager \<Rightarrow> 32 word" where
  "capture_sources_count manager = of_nat (length (inputs manager))"

definition capture_manager_set_pause ::
  "('p, 'q) CaptureManager \<Rightarrow> bool \<Rightarrow> ('p, 'q) CaptureManager" where
  "capture_manager_set_pause manager p = manager\<lparr>paused := p\<rparr>"

subsection \<open>The specification's terms\<close>

text \<open>
  A source accepts an expression when it has no filter operation or its filter operation
  returns true on it; \<open>filtered_input\<close> is the source after the operation, if any, has run.
\<close>

definition accepts_filter :: "string option \<Rightarrow> 'p CaptureInput \<Rightarrow> bool" where
  "accepts_filter flt input =
     (case filter_fn input of None \<Rightarrow> True | Some f \<Rightarrow> fst (f flt (input_priv input)))"

definition filtered_input :: "string option \<Rightarrow> 'p CaptureInput \<Rightarrow> 'p CaptureInput" where
  "filtered_input flt input =
     (case filter_fn input of
        None \<Rightarrow> input
      | Some f \<Rightarrow> input\<lparr>input_priv := snd (f flt (input_priv input))\<rparr>)"

text \<open>The filter calls made to the sources at the first \<open>n\<close> positions of a list.\<close>

definition filter_calls :: "string option \<Rightarrow> 'p CaptureInput list \<Rightarrow> nat \<Rightarrow> call list" where
  "filter_calls flt ins n =
     map (\<lambda>i. InputFilter i flt) (filter (\<lambda>i. filter_fn (ins ! i) \<noteq> None) [0..<n])"

text \<open>
  The position of the first source of a list that does not accept an expression (the
  length of the list when all accept).
\<close>

definition first_rejecting :: "string option \<Rightarrow> 'p CaptureInput list \<Rightarrow> nat" where
  "first_rejecting flt ins = length (takeWhile (accepts_filter flt) ins)"

text \<open>A sink after its close operation, or its write operation on a packet, has run.\<close>

definition closed_output :: "'q CaptureOutput \<Rightarrow> 'q CaptureOutput" where
  "closed_output output =
     (case close output of
        None \<Rightarrow> output
      | Some f \<Rightarrow> output\<lparr>output_priv := f (output_priv output)\<rparr>)"

definition written_output :: "Packet \<Rightarrow> 'q CaptureOutput \<Rightarrow> 'q CaptureOutput" where
  "written_output packet output =
     (case write output of
        None \<Rightarrow> output
      | Some f \<Rightarrow> output\<lparr>output_priv := f packet (output_priv output)\<rparr>)"

text \<open>
  The counts behind the status description: sources not in offline mode, sources in
  offline mode, and offline sources whose loop handle is not yet destroyed.
\<close>

definition online_count :: "('p, 'q) CaptureManager \<Rightarrow> nat" where
  "online_count manager =
     length (filter (\<lambda>input. mode input \<noteq> CAPTURE_MODE_OFFLINE) (inputs manager))"

definition offline_count :: "('p, 'q) CaptureManager \<Rightarrow> nat" where
  "offline_count manager =
     length (filter (\<lambda>input. mode input = CAPTURE_MODE_OFFLINE) (inputs manager))"

definition loading_count :: "('p, 'q) CaptureManager \<Rightarrow> nat" where
  "loading_count manager =
     length (filter (\<lambda>input. mode input = CAPTURE_MODE_OFFLINE \<and> \<not> destroyed (source input))
       (inputs manager))"

text \<open>
  The status text as the specification words it: a category chosen from the online and
  offline counts, followed by a suffix in which Paused comes before Loading.
\<close>

definition status_category :: "bool \<Rightarrow> bool \<Rightarrow> string" where
  "status_category has_online has_offline =
     (if has_online \<and> \<not> has_offline then ''Online''
      else if \<not> has_online \<and> has_offline then ''Offline''
      else ''Mixed'')"

definition status_suffix :: "bool \<Rightarrow> bool \<Rightarrow> string" where
  "status_suffix is_paused has_loading =
     (if is_paused then '' (Paused)'' else if has_loading then '' (Loading)'' else [])"

definition status_text :: "bool \<Rightarrow> bool \<Rightarrow> bool \<Rightarrow> bool \<Rightarrow> string" where
  "status_text is_paused has_online has_offline has_loading =
     status_category has_online has_offline @ status_suffix is_paused has_loading"

subsection \<open>Example values\<close>

text \<open>
  Concrete values on which the theorems below are exercised: a static table with the single
  payload type 8, a packet captured at a given second, and a fresh stream with unit type
  and message and numbered addresses.
\<close>

definition example_codec :: "8 word \<Rightarrow> PacketRtpEncoding option" where
  "example_codec code = (if code = 8 then Some \<lparr>format = Some ''g711a''\<rparr> else None)"

definition example_packet :: "int \<Rightarrow> Packet" where
  "example_packet t = \<lparr>capture_ts = \<lparr>tv_sec = t, tv_usec = 0\<rparr>\<rparr>"

definition example_stream :: "PacketSdpMedia option \<Rightarrow> (unit, unit, nat) Stream" where
  "example_stream md = stream_new () None md"

text \<open>
  A source of a given mode and loop-handle state whose filter operation is absent
  (\<open>None\<close>) or gives a fixed answer, keeping the expression when it accepts; a sink whose
  operations, when present, note their name in the sink's log; and the manager obtained by
  registering given sources and sinks one after the other.
\<close>

definition example_input :: "CaptureMode \<Rightarrow> bool \<Rightarrow> bool option \<Rightarrow> string option CaptureInput" where
  "example_input md gone verdict =
     \<lparr>mode = md, source = \<lparr>destroyed = gone\<rparr>, input_priv = None,
      filter_fn = (case verdict of
                     None \<Rightarrow> None
                   | Some b \<Rightarrow> Some (\<lambda>flt p. (b, if b then flt else p)))\<rparr>"

definition example_output :: "bool \<Rightarrow> bool \<Rightarrow> string list CaptureOutput" where
  "example_output has_write has_close =
     \<lparr>output_priv = [],
      write = (if has_write then Some (\<lambda>packet log. log @ [''write'']) else None),
      close = (if has_close then Some (\<lambda>log. log @ [''close'']) else None)\<rparr>"

definition example_manager ::
  "string option CaptureInput list \<Rightarrow> string list CaptureOutput list
     \<Rightarrow> (string option, string list) CaptureManager" where
  "example_manager ins outs =
     foldl capture_manager_add_output (foldl capture_manager_add_input capture_manager_new ins) outs"


section \<open>Format resolution\<close>

lemma sdp_format_scan_find:
  "sdp_format_scan i fs code =
     (case find (\<lambda>f. id_sdp f = unat code) (drop i fs) of
        None \<Rightarrow> None
      | Some f \<Rightarrow> alias f)"
proof (induction i fs code rule: sdp_format_scan.induct)
  case (1 i fs code)
  note unfold = sdp_format_scan.simps [of i fs code]
  show ?case
  proof (cases "i < length fs")
    case False
    with unfold show ?thesis by simp
  next
    case True
    then have d: "drop i fs = fs ! i # drop (Suc i) fs"
      by (simp add: Cons_nth_drop_Suc)
    show ?thesis
    proof (cases "id_sdp (fs ! i) = unat code")
      case True
      with \<open>i < length fs\<close> d unfold show ?thesis by simp
    next
      case False
      with \<open>i < length fs\<close> d unfold "1.IH" show ?thesis by simp
    qed
  qed
qed

text \<open>
  C10. A null stream, and a stream whose media descriptor is null, resolve to null
  whatever the static payload-type table holds for the stream's format code: the guard
  precedes the table lookup.
\<close>

theorem stream_get_format_null_media:
  fixes s :: "('ty, 'msg, 'addr) Stream"
  shows "stream_get_format tbl (None :: ('ty, 'msg, 'addr) Stream option) = None \<and>
         (media s = None \<longrightarrow> stream_get_format tbl (Some s) = None)"
  by (simp add: stream_get_format_def)

theorem stream_get_format_null_media_witness:
  "media (stream_set_format (example_stream None) 8) = None \<and>
   example_codec (fmtcode (stream_set_format (example_stream None) 8)) \<noteq> None \<and>
   stream_get_format example_codec (None :: (unit, unit, nat) Stream option) = None \<and>
   stream_get_format example_codec (Some (stream_set_format (example_stream None) 8)) = None"
  using stream_get_format_null_media
    [of example_codec "stream_set_format (example_stream None) 8"]
  by (simp add: example_stream_def example_codec_def stream_new_def stream_set_format_def)

text \<open>
  C2, as the claim states it, fails: a stream without a media descriptor whose format code
  is in the static table resolves to null, not to the static name. Here the table holds
  code 8 and the stream, made with a null media pointer, carries code 8.
\<close>

theorem stream_get_format_static_counterexample:
  "example_codec (fmtcode (stream_set_format (example_stream None) 8))
     = Some \<lparr>format = Some ''g711a''\<rparr> \<and>
   stream_get_format example_codec (Some (stream_set_format (example_stream None) 8)) = None \<and>
   stream_get_format example_codec (Some (stream_set_format (example_stream None) 8))
     \<noteq> format \<lparr>format = Some ''g711a''\<rparr>"
  by (simp add: example_codec_def example_stream_def stream_new_def stream_set_format_def
      stream_get_format_def)

text \<open>
  C2, amended. For every stream with a media descriptor: a format code that the static
  table holds resolves to the table's name, whatever the descriptor's format list holds;
  a code the table lacks resolves to the alias of the first entry of the descriptor's
  format list whose id equals the code; a code in neither resolves to null.
\<close>

theorem stream_get_format_resolution:
  assumes "media s = Some md"
  shows "(tbl (fmtcode s) = Some enc \<longrightarrow> stream_get_format tbl (Some s) = format enc) \<and>
         (tbl (fmtcode s) = None \<and> i < length (formats md) \<and>
            id_sdp (formats md ! i) = unat (fmtcode s) \<and>
            (\<forall>j<i. id_sdp (formats md ! j) \<noteq> unat (fmtcode s))
          \<longrightarrow> stream_get_format tbl (Some s) = alias (formats md ! i)) \<and>
         (tbl (fmtcode s) = None \<and>
            (\<forall>f\<in>set (formats md). id_sdp f \<noteq> unat (fmtcode s))
          \<longrightarrow> stream_get_format tbl (Some s) = None)"
proof (intro conjI impI)
  assume "tbl (fmtcode s) = Some enc"
  with assms show "stream_get_format tbl (Some s) = format enc"
    by (simp add: stream_get_format_def)
next
  assume a: "tbl (fmtcode s) = None \<and> i < length (formats md) \<and>
            id_sdp (formats md ! i) = unat (fmtcode s) \<and>
            (\<forall>j<i. id_sdp (formats md ! j) \<noteq> unat (fmtcode s))"
  then have "find (\<lambda>f. id_sdp f = unat (fmtcode s)) (formats md) = Some (formats md ! i)"
    by (auto simp: find_Some_iff)
  with a assms show "stream_get_format tbl (Some s) = alias (formats md ! i)"
    by (simp add: stream_get_format_def sdp_format_scan_find)
next
  assume a: "tbl (fmtcode s) = None \<and>
            (\<forall>f\<in>set (formats md). id_sdp f \<noteq> unat (fmtcode s))"
  then have "find (\<lambda>f. id_sdp f = unat (fmtcode s)) (formats md) = None"
    by (auto simp: find_None_iff)
  with a assms show "stream_get_format tbl (Some s) = None"
    by (simp add: stream_get_format_def sdp_format_scan_find)
qed

theorem stream_get_format_resolution_witness:
  "stream_get_format example_codec
     (Some (stream_set_format (example_stream
        (Some \<lparr>formats = [\<lparr>id_sdp = 8, alias = Some ''other''\<rparr>]\<rparr>)) 8)) = Some ''g711a'' \<and>
   stream_get_format example_codec
     (Some (stream_set_format (example_stream
        (Some \<lparr>formats = [\<lparr>id_sdp = 8, alias = Some ''other''\<rparr>,
                          \<lparr>id_sdp = 96, alias = Some ''opus''\<rparr>,
                          \<lparr>id_sdp = 96, alias = Some ''later''\<rparr>]\<rparr>)) 96)) = Some ''opus'' \<and>
   stream_get_format example_codec
     (Some (stream_set_format (example_stream
        (Some \<lparr>formats = [\<lparr>id_sdp = 8, alias = Some ''other''\<rparr>]\<rparr>)) 97)) = None"
proof -
  let ?m1 = "\<lparr>formats = [\<lparr>id_sdp = 8, alias = Some ''other''\<rparr>]\<rparr>"
  let ?m3 = "\<lparr>formats = [\<lparr>id_sdp = 8, alias = Some ''other''\<rparr>,
                         \<lparr>id_sdp = 96, alias = Some ''opus''\<rparr>,
                         \<lparr>id_sdp = 96, alias = Some ''later''\<rparr>]\<rparr>"
  have a: "stream_get_format example_codec
      (Some (stream_set_format (example_stream (Some ?m1)) 8)) = Some ''g711a''"
    using stream_get_format_resolution
      [of "stream_set_format (example_stream (Some ?m1)) 8" ?m1 example_codec
          "\<lparr>format = Some ''g711a''\<rparr>" 0]
    by (simp add: example_stream_def example_codec_def stream_new_def stream_set_format_def)
  have b: "stream_get_format example_codec
      (Some (stream_set_format (example_stream (Some ?m3)) 96)) = Some ''opus''"
    using stream_get_format_resolution
      [of "stream_set_format (example_stream (Some ?m3)) 96" ?m3 example_codec
          "\<lparr>format = Some ''g711a''\<rparr>" 1]
    by (simp add: example_stream_def example_codec_def stream_new_def stream_set_format_def)
  have c: "stream_get_format example_codec
      (Some (stream_set_format (example_stream (Some ?m1)) 97)) = None"
    using stream_get_format_resolution
      [of "stream_set_format (example_stream (Some ?m1)) 97" ?m1 example_codec
          "\<lparr>format = Some ''g711a''\<rparr>" 0]
    by (simp add: example_stream_def example_codec_def stream_new_def stream_set_format_def)
  from a b c show ?thesis by simp
qed


section \<open>Packet accounting\<close>

lemma stream_add_packet_pkt_count:
  "pkt_count (stream_add_packet now s p) = pkt_count s + 1"
  by (simp add: stream_add_packet_def Let_def)

lemma stream_add_packet_firsttv:
  "firsttv (stream_add_packet now s p) = (if pkt_count s = 0 then packet_time p else firsttv s)"
  by (simp add: stream_add_packet_def Let_def)

lemma stream_add_packet_lasttm: "lasttm (stream_add_packet now s p) = now"
  by (simp add: stream_add_packet_def Let_def)

lemma stream_add_packet_changed: "changed (stream_add_packet now s p)"
  by (simp add: stream_add_packet_def Let_def)

lemma stream_add_packet_others:
  "type (stream_add_packet now s p) = type s \<and>
   src (stream_add_packet now s p) = src s \<and>
   dst (stream_add_packet now s p) = dst s \<and>
   media (stream_add_packet now s p) = media s \<and>
   msg (stream_add_packet now s p) = msg s \<and>
   packets (stream_add_packet now s p) = packets s \<and>
   fmtcode (stream_add_packet now s p) = fmtcode s"
  by (simp add: stream_add_packet_def Let_def)

lemma stream_add_packets_pkt_count:
  "pkt_count (stream_add_packets s calls) = pkt_count s + of_nat (length calls)"
  by (induction s calls rule: stream_add_packets.induct)
     (simp_all add: stream_add_packet_pkt_count)

lemma stream_add_packets_append:
  "stream_add_packets s (xs @ ys) = stream_add_packets (stream_add_packets s xs) ys"
  by (induction s xs rule: stream_add_packets.induct) simp_all

lemma stream_add_packets_others:
  "type (stream_add_packets s calls) = type s \<and>
   src (stream_add_packets s calls) = src s \<and>
   dst (stream_add_packets s calls) = dst s \<and>
   media (stream_add_packets s calls) = media s \<and>
   msg (stream_add_packets s calls) = msg s \<and>
   packets (stream_add_packets s calls) = packets s \<and>
   fmtcode (stream_add_packets s calls) = fmtcode s"
  by (induction s calls rule: stream_add_packets.induct)
     (simp_all add: stream_add_packet_others)

lemma stream_add_packets_last:
  "calls \<noteq> [] \<Longrightarrow>
   lasttm (stream_add_packets s calls) = fst (last calls) \<and> changed (stream_add_packets s calls)"
proof (induction s calls rule: stream_add_packets.induct)
  case (1 s)
  then show ?case by simp
next
  case (2 s now p calls)
  then show ?case
    by (cases calls) (simp_all add: stream_add_packet_lasttm stream_add_packet_changed)
qed

lemma unat_succ_32:
  "unat (c :: 32 word) + 1 < 2 ^ 32 \<Longrightarrow> unat (c + 1) = unat c + 1"
  by (simp add: unat_word_ariths)

lemma stream_add_packets_firsttv_kept:
  "pkt_count s \<noteq> 0 \<Longrightarrow> unat (pkt_count s) + length calls \<le> 2 ^ 32 \<Longrightarrow>
   firsttv (stream_add_packets s calls) = firsttv s"
proof (induction s calls rule: stream_add_packets.induct)
  case (1 s)
  then show ?case by simp
next
  case (2 s now p calls)
  show ?case
  proof (cases calls)
    case Nil
    with "2.prems" show ?thesis by (simp add: stream_add_packet_firsttv)
  next
    case (Cons c cs)
    with "2.prems" have b: "unat (pkt_count s) + 1 < 2 ^ 32" by simp
    then have u: "unat (pkt_count s + 1) = unat (pkt_count s) + 1" by (rule unat_succ_32)
    then have nz: "pkt_count s + 1 \<noteq> 0" by (metis Suc_eq_plus1 nat.simps(3) unat_0) 
    from "2.prems" u have le: "unat (pkt_count (stream_add_packet now s p)) + length calls \<le> 2 ^ 32"
      by (simp add: stream_add_packet_pkt_count) 
    from nz have "pkt_count (stream_add_packet now s p) \<noteq> 0"
      by (simp add: stream_add_packet_pkt_count) 
    from "2.IH" [OF this le] "2.prems" show ?thesis
      by (simp add: stream_add_packet_firsttv)
  qed
qed

lemma stream_add_packets_fresh_firsttv:
  fixes m :: "'msg option" and ty :: 'ty
  assumes "calls \<noteq> []" "length calls \<le> 2 ^ 32"
  shows "firsttv (stream_add_packets (stream_new ty m md :: ('ty, 'msg, 'addr::zero) Stream) calls)
         = packet_time (snd (hd calls))"
proof -
  obtain now p rest where c: "calls = (now, p) # rest" using assms(1) by (cases calls) auto
  let ?s = "stream_new ty m md :: ('ty, 'msg, 'addr) Stream"
  let ?s1 = "stream_add_packet now ?s p"
  have pc: "pkt_count ?s1 = 1" by (simp add: stream_add_packet_pkt_count stream_new_def)
  have ft: "firsttv ?s1 = packet_time p" by (simp add: stream_add_packet_firsttv stream_new_def)
  have "firsttv (stream_add_packets ?s1 rest) = firsttv ?s1"
    using assms(2) c pc by (intro stream_add_packets_firsttv_kept) simp_all
  with ft c show ?thesis by simp
qed

text \<open>
  C3, as the claim states it, fails: the count is a 32-bit unsigned number, so after
  \<open>2 ^ 32\<close> calls on a fresh stream \<^verbatim>\<open>stream_get_count\<close> does not return \<open>2 ^ 32\<close>.
\<close>

theorem stream_get_count_counterexample:
  "unat (stream_get_count (stream_add_packets (example_stream None)
      (replicate (2 ^ 32) (0, example_packet 0)))) \<noteq> 2 ^ 32"
proof -
  have "pkt_count (stream_add_packets (example_stream None)
      (replicate (2 ^ 32) (0, example_packet 0))) = 0"
    unfolding stream_add_packets_pkt_count
    by (simp add: example_stream_def stream_new_def)
  then show ?thesis by (simp add: stream_get_count_def)
qed

text \<open>
  C3, amended. After any number \<open>N\<close> of \<^verbatim>\<open>stream_add_packet\<close> calls on a fresh stream
  the count is \<open>N mod 2 ^ 32\<close>, hence \<open>N\<close> itself for every \<open>N < 2 ^ 32\<close>; in a run of
  at most \<open>2 ^ 32\<close> calls the first-packet time after the first call, and after every later
  one, is the capture time of the packet given to the first call; after a non-empty run the
  last-activity time is the clock reading of the last call and the dirty flag is set, as each
  single call sets them.
\<close>

theorem stream_add_packets_fresh:
  fixes ty :: 'ty and m :: "'msg option" and s :: "('ty, 'msg, 'addr::zero) Stream"
  shows "unat (stream_get_count (stream_add_packets
              (stream_new ty m md :: ('ty, 'msg, 'addr) Stream) calls))
           = length calls mod 2 ^ 32 \<and>
         (length calls < 2 ^ 32 \<longrightarrow>
            unat (stream_get_count (stream_add_packets
              (stream_new ty m md :: ('ty, 'msg, 'addr) Stream) calls))
              = length calls) \<and>
         (\<forall>k. 0 < k \<and> k \<le> length calls \<and> length calls \<le> 2 ^ 32 \<longrightarrow>
            stream_time (stream_add_packets
              (stream_new ty m md :: ('ty, 'msg, 'addr) Stream) (take k calls))
              = packet_time (snd (hd calls))) \<and>
         (calls \<noteq> [] \<longrightarrow>
            lasttm (stream_add_packets
              (stream_new ty m md :: ('ty, 'msg, 'addr) Stream) calls) = fst (last calls) \<and>
            changed (stream_add_packets
              (stream_new ty m md :: ('ty, 'msg, 'addr) Stream) calls)) \<and>
         lasttm (stream_add_packet now s packet) = now \<and>
         changed (stream_add_packet now s packet)"
proof -
  let ?fresh = "stream_new ty m md :: ('ty, 'msg, 'addr) Stream"
  have cnt: "unat (stream_get_count (stream_add_packets ?fresh calls)) = length calls mod 2 ^ 32"
    by (simp add: stream_get_count_def stream_add_packets_pkt_count stream_new_def unat_of_nat)
  have first: "stream_time (stream_add_packets ?fresh (take k calls)) = packet_time (snd (hd calls))"
    if "0 < k \<and> k \<le> length calls \<and> length calls \<le> 2 ^ 32" for k
  proof -
    from that have ne: "take k calls \<noteq> []" by auto
    from that have le: "length (take k calls) \<le> 2 ^ 32" by simp
    from that have hd: "hd (take k calls) = hd calls" by (cases calls) auto
    from stream_add_packets_fresh_firsttv [OF ne le, of ty m md] hd show ?thesis
      by (simp add: stream_time_def)
  qed
  from cnt first show ?thesis
    by (simp add: stream_add_packets_last stream_add_packet_lasttm stream_add_packet_changed)
qed

theorem stream_add_packets_fresh_witness:
  "unat (stream_get_count (stream_add_packets (example_stream None)
      [(10, example_packet 100), (20, example_packet 200), (30, example_packet 300)])) = 3 \<and>
   stream_time (stream_add_packets (example_stream None)
      [(10, example_packet 100), (20, example_packet 200), (30, example_packet 300)])
     = \<lparr>tv_sec = 100, tv_usec = 0\<rparr> \<and>
   stream_time (stream_add_packets (example_stream None)
      [(10, example_packet 100), (20, example_packet 200)])
     = \<lparr>tv_sec = 100, tv_usec = 0\<rparr> \<and>
   lasttm (stream_add_packets (example_stream None)
      [(10, example_packet 100), (20, example_packet 200), (30, example_packet 300)]) = 30 \<and>
   changed (stream_add_packets (example_stream None)
      [(10, example_packet 100), (20, example_packet 200), (30, example_packet 300)])"
proof -
  let ?calls = "[(10, example_packet 100), (20, example_packet 200), (30, example_packet 300)]"
  note t = stream_add_packets_fresh
    [of "()" "None :: unit option" None ?calls 0 "example_stream None" "example_packet 0",
     folded example_stream_def]
  have l: "length ?calls < 2 ^ 32" "?calls \<noteq> []" by simp_all
  from t l have c: "unat (stream_get_count (stream_add_packets (example_stream None) ?calls)) = 3"
    by simp
  from t have f3: "stream_time (stream_add_packets (example_stream None) (take 3 ?calls))
      = packet_time (snd (hd ?calls))"
    by (elim conjE allE [of _ 3]) simp
  from t have f2: "stream_time (stream_add_packets (example_stream None) (take 2 ?calls))
      = packet_time (snd (hd ?calls))"
    by (elim conjE allE [of _ 2]) simp
  from t l have la: "lasttm (stream_add_packets (example_stream None) ?calls) = fst (last ?calls)
      \<and> changed (stream_add_packets (example_stream None) ?calls)"
    by blast
  from c f3 f2 la show ?thesis
    by (simp add: packet_time_def example_packet_def)
qed

text \<open>
  C9, as the claim states it, fails in one clause: the first-packet time is not rewritten
  by the first call only. After \<open>2 ^ 32\<close> calls on a fresh stream the 32-bit count is
  back at zero and the first-packet time is still that of the first packet; the next call
  rewrites it.
\<close>

theorem stream_time_rewritten_counterexample:
  "stream_time (stream_add_packets (example_stream None)
      (replicate (2 ^ 32) (0, example_packet 100)))
     = \<lparr>tv_sec = 100, tv_usec = 0\<rparr> \<and>
   stream_time (stream_add_packets (example_stream None)
      (replicate (2 ^ 32) (0, example_packet 100) @ [(1, example_packet 200)]))
     = \<lparr>tv_sec = 200, tv_usec = 0\<rparr>"
proof -
  let ?calls = "replicate (2 ^ 32) (0 :: int, example_packet 100)"
  let ?s = "stream_add_packets (example_stream None) ?calls"
  have ne: "?calls \<noteq> []" by simp
  have le: "length ?calls \<le> 2 ^ 32" by simp
  have hd: "hd ?calls = (0, example_packet 100)" by (simp add: hd_replicate)
  from stream_add_packets_fresh_firsttv [OF ne le, of "()" "None :: unit option" None] hd
  have a: "stream_time ?s = \<lparr>tv_sec = 100, tv_usec = 0\<rparr>"
    by (simp add: stream_time_def example_stream_def packet_time_def example_packet_def)
  have "pkt_count ?s = 0"
    unfolding stream_add_packets_pkt_count by (simp add: example_stream_def stream_new_def)
  then have "firsttv (stream_add_packet 1 ?s (example_packet 200)) = packet_time (example_packet 200)"
    by (simp add: stream_add_packet_firsttv)
  then have b: "stream_time (stream_add_packets (example_stream None)
      (?calls @ [(1, example_packet 200)])) = \<lparr>tv_sec = 200, tv_usec = 0\<rparr>"
    by (simp add: stream_add_packets_append stream_time_def packet_time_def example_packet_def)
  from a b show ?thesis by simp
qed

text \<open>
  C9, amended. \<^verbatim>\<open>stream_add_packet\<close> never touches the packet container: over any run
  of calls on any stream the container, the type, the two back-references, the two
  endpoints and the format code stay as they were. A call rewrites the first-packet time
  exactly when it finds the count at zero, as the first call on a fresh stream does; once
  the count is not zero, no call rewrites it before the count has wrapped. On a fresh stream
  the container stays empty while the count is the number of calls as a 32-bit number.
\<close>

theorem stream_add_packet_frame:
  fixes ty :: 'ty and m :: "'msg option" and s :: "('ty, 'msg, 'addr::zero) Stream"
  shows "packets (stream_add_packets s calls) = packets s \<and>
         type (stream_add_packets s calls) = type s \<and>
         msg (stream_add_packets s calls) = msg s \<and>
         media (stream_add_packets s calls) = media s \<and>
         src (stream_add_packets s calls) = src s \<and>
         dst (stream_add_packets s calls) = dst s \<and>
         fmtcode (stream_add_packets s calls) = fmtcode s \<and>
         firsttv (stream_add_packet now s packet)
           = (if pkt_count s = 0 then packet_time packet else firsttv s) \<and>
         (pkt_count s \<noteq> 0 \<and> unat (pkt_count s) + length calls \<le> 2 ^ 32 \<longrightarrow>
            firsttv (stream_add_packets s calls) = firsttv s) \<and>
         packets (stream_add_packets (stream_new ty m md :: ('ty, 'msg, 'addr) Stream) calls) = [] \<and>
         stream_get_count (stream_add_packets (stream_new ty m md :: ('ty, 'msg, 'addr) Stream) calls)
           = of_nat (length calls)"
  by (simp add: stream_add_packets_others stream_add_packet_firsttv stream_get_count_def
      stream_add_packets_pkt_count stream_new_def stream_add_packets_firsttv_kept)

theorem stream_add_packet_frame_witness:
  "packets (stream_add_packets (example_stream None)
      [(10, example_packet 100), (20, example_packet 200)]) = [] \<and>
   stream_get_count (stream_add_packets (example_stream None)
      [(10, example_packet 100), (20, example_packet 200)]) = 2 \<and>
   firsttv (stream_add_packet 10 (example_stream None) (example_packet 100))
     = \<lparr>tv_sec = 100, tv_usec = 0\<rparr> \<and>
   firsttv (stream_add_packets (stream_add_packet 10 (example_stream None) (example_packet 100))
      [(20, example_packet 200), (30, example_packet 300)])
     = \<lparr>tv_sec = 100, tv_usec = 0\<rparr>"
proof -
  let ?s1 = "stream_add_packet 10 (example_stream None) (example_packet 100)"
  let ?two = "[(10, example_packet 100), (20, example_packet 200)]"
  let ?rest = "[(20, example_packet 200), (30, example_packet 300)]"
  note d = stream_add_packet_def example_stream_def stream_new_def example_packet_def
    packet_time_def
  note t0 = stream_add_packet_frame
    [of "example_stream None" ?two 10 "example_packet 100" "()" "None :: unit option" None,
     folded example_stream_def]
  note t1 = stream_add_packet_frame
    [of ?s1 ?rest 20 "example_packet 200" "()" "None :: unit option" None,
     folded example_stream_def]
  from t0 have a: "packets (stream_add_packets (example_stream None) ?two) = []" 
    and b: "stream_get_count (stream_add_packets (example_stream None) ?two) = 2"
    and c: "firsttv ?s1 = \<lparr>tv_sec = 100, tv_usec = 0\<rparr>"
    by (simp_all add: d)
  have h: "pkt_count ?s1 \<noteq> 0 \<and> unat (pkt_count ?s1) + length ?rest \<le> 2 ^ 32"
    by (simp add: d)
  with t1 have "firsttv (stream_add_packets ?s1 ?rest) = firsttv ?s1" by blast
  with a b c show ?thesis by simp
qed


section \<open>Stream activity\<close>

text \<open>
  C8. \<^verbatim>\<open>stream_is_active\<close> holds exactly when the clock reading minus the
  last-activity time is at most the threshold constant; it returns a truth value and leaves
  the stream as it is. After a \<^verbatim>\<open>stream_add_packet\<close> call at reading \<open>now\<close> it holds
  at a reading \<open>later\<close> exactly when \<open>later - now\<close> is at most the threshold, so it holds
  at once (the threshold being non-negative) and fails once the threshold is exceeded; for
  a stream that receives no packet, holding at a later reading implies holding at every
  earlier one.
\<close>

theorem stream_is_active_elapsed:
  "stream_is_active thr now s = (now - lasttm s \<le> thr) \<and>
   stream_is_active thr later (stream_add_packet now s p) = (later - now \<le> thr) \<and>
   (0 \<le> thr \<longrightarrow> stream_is_active thr now (stream_add_packet now s p)) \<and>
   (now \<le> later \<and> stream_is_active thr later s \<longrightarrow> stream_is_active thr now s)"
  by (simp add: stream_is_active_def stream_add_packet_lasttm)

theorem stream_is_active_elapsed_witness:
  "stream_is_active 3 50 (stream_add_packet 50 (example_stream None) (example_packet 7)) \<and>
   stream_is_active 3 53 (stream_add_packet 50 (example_stream None) (example_packet 7)) \<and>
   \<not> stream_is_active 3 54 (stream_add_packet 50 (example_stream None) (example_packet 7)) \<and>
   stream_is_active 3 51 (stream_add_packet 50 (example_stream None) (example_packet 7))"
proof -
  let ?s = "stream_add_packet 50 (example_stream None) (example_packet 7)"
  note t = stream_is_active_elapsed [where thr = 3 and p = "example_packet 7"]
  from t [where now = 50 and s = "example_stream None" and later = 50]
  have a: "stream_is_active 3 50 ?s" by simp
  from t [where now = 50 and s = "example_stream None" and later = 53]
  have b: "stream_is_active 3 53 ?s" by simp
  from t [where now = 50 and s = "example_stream None" and later = 54]
  have c: "\<not> stream_is_active 3 54 ?s" by simp
  have "(51 :: int) \<le> 53" by simp
  with t [where now = 51 and s = ?s and later = 53] b
  have d: "stream_is_active 3 51 ?s" by blast
  from a b c d show ?thesis by simp
qed


section \<open>The loops of the capture manager\<close>

text \<open>
  Each loop walks a list while counting positions. The positions at which it makes a call
  are those of the entries that have the operation, in increasing order.
\<close>

lemma positions_enumerate:
  "map fst (filter (\<lambda>(j, x). P x) (List.enumerate i xs))
     = filter (\<lambda>j. P (xs ! (j - i))) [i..<i + length xs]"
proof (induction xs arbitrary: i)
  case Nil
  then show ?case by simp
next
  case (Cons x xs)
  have shift: "filter (\<lambda>j. P ((x # xs) ! (j - i))) [Suc i..<Suc i + length xs]
      = filter (\<lambda>j. P (xs ! (j - Suc i))) [Suc i..<Suc i + length xs]"
    by (rule filter_cong) (auto simp: nth_Cons')
  have "[i..<i + length (x # xs)] = i # [Suc i..<Suc i + length xs]"
    by (subst upt_rec) simp
  with Cons [of "Suc i"] shift show ?case by simp
qed

lemma positions_enumerate_0:
  "map fst (filter (\<lambda>(j, x). P x) (List.enumerate 0 xs))
     = filter (\<lambda>j. P (xs ! j)) [0..<length xs]"
  using positions_enumerate [of P 0 xs] by simp

lemma close_outputs_enumerate:
  "close_outputs i outs =
     (map closed_output outs,
      map OutputClose (map fst (filter (\<lambda>(j, out). close out \<noteq> None) (List.enumerate i outs))))"
  by (induction outs arbitrary: i) (auto simp: closed_output_def split: option.splits)

lemma write_outputs_enumerate:
  "write_outputs i outs p =
     (map (written_output p) outs,
      map (\<lambda>j. OutputWrite j p)
        (map fst (filter (\<lambda>(j, out). write out \<noteq> None) (List.enumerate i outs))))"
  by (induction outs arbitrary: i) (auto simp: written_output_def split: option.splits)

lemma filter_inputs_enumerate:
  "filter_inputs i ins flt =
     (case dropWhile (accepts_filter flt) ins of
        [] \<Rightarrow>
          (True, map (filtered_input flt) ins,
           map (\<lambda>j. InputFilter j flt)
             (map fst (filter (\<lambda>(j, inp). filter_fn inp \<noteq> None) (List.enumerate i ins))))
      | r # rest \<Rightarrow>
          (False,
           map (filtered_input flt) (takeWhile (accepts_filter flt) ins @ [r]) @ rest,
           map (\<lambda>j. InputFilter j flt)
             (map fst (filter (\<lambda>(j, inp). filter_fn inp \<noteq> None)
                (List.enumerate i (takeWhile (accepts_filter flt) ins @ [r]))))))"
proof (induction ins arbitrary: i)
  case Nil
  then show ?case by simp
next
  case (Cons x xs)
  note IH = Cons [of "Suc i"]
  show ?case
  proof (cases "filter_fn x")
    case None
    then have h: "accepts_filter flt x" "filtered_input flt x = x"
      by (simp_all add: accepts_filter_def filtered_input_def)
    show ?thesis
    proof (cases "dropWhile (accepts_filter flt) xs")
      case Nil
      with None h IH show ?thesis by (simp del: dropWhile_eq_Nil_conv)
    next
      case (Cons r rest)
      with None h IH show ?thesis by simp
    qed
  next
    case (Some f)
    obtain acc p where r: "f flt (input_priv x) = (acc, p)" by (cases "f flt (input_priv x)")
    with Some have h: "accepts_filter flt x = acc" "filtered_input flt x = x\<lparr>input_priv := p\<rparr>"
      by (simp_all add: accepts_filter_def filtered_input_def)
    show ?thesis
    proof (cases acc)
      case False
      with Some r h show ?thesis by simp
    next
      case True
      show ?thesis
      proof (cases "dropWhile (accepts_filter flt) xs")
        case Nil
        with True Some r h IH show ?thesis by (simp del: dropWhile_eq_Nil_conv)
      next
        case (Cons r' rest)
        with True Some r h IH show ?thesis by simp
      qed
    qed
  qed
qed

lemma example_manager_lists:
  "inputs (example_manager ins outs) = ins \<and> outputs (example_manager ins outs) = outs \<and>
   paused (example_manager ins outs) = False \<and> filter_mgr (example_manager ins outs) = None \<and>
   keyfile (example_manager ins outs) = None"
proof -
  have i: "inputs (foldl capture_manager_add_input m ins) = inputs m @ ins \<and>
      outputs (foldl capture_manager_add_input m ins) = outputs m \<and>
      paused (foldl capture_manager_add_input m ins) = paused m \<and>
      filter_mgr (foldl capture_manager_add_input m ins) = filter_mgr m \<and>
      keyfile (foldl capture_manager_add_input m ins) = keyfile m"
    for m :: "(string option, string list) CaptureManager" and ins
    by (induction ins arbitrary: m) (simp_all add: capture_manager_add_input_def)
  have o: "inputs (foldl capture_manager_add_output m outs) = inputs m \<and>
      outputs (foldl capture_manager_add_output m outs) = outputs m @ outs \<and>
      paused (foldl capture_manager_add_output m outs) = paused m \<and>
      filter_mgr (foldl capture_manager_add_output m outs) = filter_mgr m \<and>
      keyfile (foldl capture_manager_add_output m outs) = keyfile m"
    for m :: "(string option, string list) CaptureManager" and outs
    by (induction outs arbitrary: m) (simp_all add: capture_manager_add_output_def)
  show ?thesis
    by (simp add: example_manager_def i o capture_manager_new_def)
qed


section \<open>Filter\<close>

lemma take_first_rejecting:
  assumes "\<not> list_all (accepts_filter flt) ins"
  shows "\<exists>r rest. dropWhile (accepts_filter flt) ins = r # rest \<and>
           takeWhile (accepts_filter flt) ins @ [r] = take (Suc (first_rejecting flt ins)) ins \<and>
           rest = drop (Suc (first_rejecting flt ins)) ins \<and>
           first_rejecting flt ins < length ins"
proof -
  let ?P = "accepts_filter flt"
  from assms have "dropWhile ?P ins \<noteq> []" by (simp add: list_all_iff)
  then obtain r rest where d: "dropWhile ?P ins = r # rest" by (cases "dropWhile ?P ins") auto
  have split: "ins = takeWhile ?P ins @ r # rest"
    using takeWhile_dropWhile_id [of ?P ins] d by simp
  let ?k = "length (takeWhile ?P ins)"
  have "take (Suc ?k) ins = take (Suc ?k) (takeWhile ?P ins @ r # rest)" using split by simp
  also have "\<dots> = takeWhile ?P ins @ [r]" by simp
  finally have t: "take (Suc ?k) ins = takeWhile ?P ins @ [r]" .
  have "drop (Suc ?k) ins = drop (Suc ?k) (takeWhile ?P ins @ r # rest)" using split by simp
  also have "\<dots> = rest" by simp
  finally have dr: "drop (Suc ?k) ins = rest" .
  have "length ins = length (takeWhile ?P ins @ r # rest)" using split by simp
  then have "?k < length ins" by simp
  with d t dr show ?thesis by (simp add: first_rejecting_def)
qed

lemma filter_calls_take:
  "n \<le> length ins \<Longrightarrow>
   map (\<lambda>j. InputFilter j flt)
     (map fst (filter (\<lambda>(j, inp). filter_fn inp \<noteq> None) (List.enumerate 0 (take n ins))))
   = filter_calls flt ins n"
proof -
  assume n: "n \<le> length ins"
  have "filter (\<lambda>j. filter_fn (take n ins ! j) \<noteq> None) [0..<n]
      = filter (\<lambda>j. filter_fn (ins ! j) \<noteq> None) [0..<n]"
    by (rule filter_cong) auto
  with n show ?thesis
    by (simp add: positions_enumerate_0 filter_calls_def min_absorb2)
qed

text \<open>
  C1. When every registered source accepts the expression (each source without a filter
  operation does, and so does an empty list of sources), \<^verbatim>\<open>capture_manager_set_filter\<close>
  returns true, stores the expression unchanged as the manager's filter, and has called the
  filter operation of every source that has one, in registration order. Otherwise it
  returns false and leaves the stored filter null; it has called the filter operations up
  to and including the first source that refuses, and no source registered after that one
  is called or changed, however many sources accepted before it.
\<close>

theorem capture_manager_set_filter_outcome:
  "capture_manager_set_filter m flt =
     (if list_all (accepts_filter flt) (inputs m)
      then (True,
            m\<lparr>inputs := map (filtered_input flt) (inputs m), filter_mgr := flt\<rparr>,
            filter_calls flt (inputs m) (length (inputs m)))
      else (False,
            m\<lparr>inputs := map (filtered_input flt)
                          (take (Suc (first_rejecting flt (inputs m))) (inputs m))
                        @ drop (Suc (first_rejecting flt (inputs m))) (inputs m),
              filter_mgr := None\<rparr>,
            filter_calls flt (inputs m) (Suc (first_rejecting flt (inputs m)))))"
proof (cases "list_all (accepts_filter flt) (inputs m)")
  case True
  then have "dropWhile (accepts_filter flt) (inputs m) = []" by (simp add: list_all_iff)
  with True filter_calls_take [of "length (inputs m)" "inputs m" flt] show ?thesis
    by (simp add: capture_manager_set_filter_def filter_inputs_enumerate g_strdup_def
        del: dropWhile_eq_Nil_conv)
next
  case False
  from take_first_rejecting [OF False] obtain r rest where
    d: "dropWhile (accepts_filter flt) (inputs m) = r # rest" and
    t: "takeWhile (accepts_filter flt) (inputs m) @ [r]
          = take (Suc (first_rejecting flt (inputs m))) (inputs m)" and
    dr: "rest = drop (Suc (first_rejecting flt (inputs m))) (inputs m)" and
    k: "first_rejecting flt (inputs m) < length (inputs m)"
    by blast
  from k have "Suc (first_rejecting flt (inputs m)) \<le> length (inputs m)" by simp
  note c = filter_calls_take [OF this, of flt]
  from False d dr c show ?thesis
    by (simp add: capture_manager_set_filter_def filter_inputs_enumerate t)
qed

theorem capture_manager_set_filter_outcome_witness:
  "capture_manager_set_filter (example_manager [] []) (Some ''udp'')
     = (True, example_manager [] [] \<lparr>filter_mgr := Some ''udp''\<rparr>, []) \<and>
   fst (capture_manager_set_filter (example_manager
      [example_input CAPTURE_MODE_LIVE False (Some True), example_input CAPTURE_MODE_LIVE False None,
       example_input CAPTURE_MODE_LIVE False (Some True)] []) (Some ''udp'')) \<and>
   capture_manager_filter (fst (snd (capture_manager_set_filter (example_manager
      [example_input CAPTURE_MODE_LIVE False (Some True), example_input CAPTURE_MODE_LIVE False None,
       example_input CAPTURE_MODE_LIVE False (Some True)] []) (Some ''udp'')))) = Some ''udp'' \<and>
   snd (snd (capture_manager_set_filter (example_manager
      [example_input CAPTURE_MODE_LIVE False (Some True), example_input CAPTURE_MODE_LIVE False None,
       example_input CAPTURE_MODE_LIVE False (Some True)] []) (Some ''udp'')))
     = [InputFilter 0 (Some ''udp''), InputFilter 2 (Some ''udp'')] \<and>
   \<not> fst (capture_manager_set_filter (example_manager
      [example_input CAPTURE_MODE_LIVE False (Some True), example_input CAPTURE_MODE_LIVE False (Some False),
       example_input CAPTURE_MODE_LIVE False (Some True)] []) (Some ''udp'')) \<and>
   capture_manager_filter (fst (snd (capture_manager_set_filter (example_manager
      [example_input CAPTURE_MODE_LIVE False (Some True), example_input CAPTURE_MODE_LIVE False (Some False),
       example_input CAPTURE_MODE_LIVE False (Some True)] []) (Some ''udp'')))) = None \<and>
   snd (snd (capture_manager_set_filter (example_manager
      [example_input CAPTURE_MODE_LIVE False (Some True), example_input CAPTURE_MODE_LIVE False (Some False),
       example_input CAPTURE_MODE_LIVE False (Some True)] []) (Some ''udp'')))
     = [InputFilter 0 (Some ''udp''), InputFilter 1 (Some ''udp'')] \<and>
   map input_priv (inputs (fst (snd (capture_manager_set_filter (example_manager
      [example_input CAPTURE_MODE_LIVE False (Some True), example_input CAPTURE_MODE_LIVE False (Some False),
       example_input CAPTURE_MODE_LIVE False (Some True)] []) (Some ''udp'')))))
     = [Some ''udp'', None, None]"
proof -
  note d = example_manager_lists example_input_def accepts_filter_def filtered_input_def
    filter_calls_def first_rejecting_def capture_manager_filter_def
  let ?ok = "example_manager
      [example_input CAPTURE_MODE_LIVE False (Some True), example_input CAPTURE_MODE_LIVE False None,
       example_input CAPTURE_MODE_LIVE False (Some True)] []"
  let ?bad = "example_manager
      [example_input CAPTURE_MODE_LIVE False (Some True), example_input CAPTURE_MODE_LIVE False (Some False),
       example_input CAPTURE_MODE_LIVE False (Some True)] []"
  have a: "capture_manager_set_filter (example_manager [] []) (Some ''udp'')
     = (True, example_manager [] [] \<lparr>filter_mgr := Some ''udp''\<rparr>, [])"
    using capture_manager_set_filter_outcome [of "example_manager [] []" "Some ''udp''"]
    by (simp add: d)
  have b: "capture_manager_set_filter ?ok (Some ''udp'')
     = (True, ?ok\<lparr>inputs := map (filtered_input (Some ''udp'')) (inputs ?ok),
                   filter_mgr := Some ''udp''\<rparr>,
        [InputFilter 0 (Some ''udp''), InputFilter 2 (Some ''udp'')])"
    using capture_manager_set_filter_outcome [of ?ok "Some ''udp''"]
    by (simp add: d)
  have c: "capture_manager_set_filter ?bad (Some ''udp'')
     = (False, ?bad\<lparr>inputs := map (filtered_input (Some ''udp'')) (take 2 (inputs ?bad))
                      @ drop 2 (inputs ?bad),
                   filter_mgr := None\<rparr>,
        [InputFilter 0 (Some ''udp''), InputFilter 1 (Some ''udp'')])"
    using capture_manager_set_filter_outcome [of ?bad "Some ''udp''"]
    by (simp add: d)
  from a b c show ?thesis by (simp add: d)
qed


section \<open>Stop and packet output\<close>

text \<open>
  C5. \<^verbatim>\<open>capture_manager_stop\<close> calls the close operation of every sink that has one,
  in registration order, passing over the sinks that have none; then it calls
  \<^verbatim>\<open>g_main_loop_quit\<close>; then \<^verbatim>\<open>g_thread_join\<close>, which is always its last call.
  It has no failing outcome.
\<close>

theorem capture_manager_stop_calls:
  "capture_manager_stop m =
     (m\<lparr>outputs := map closed_output (outputs m)\<rparr>,
      map OutputClose (filter (\<lambda>i. close (outputs m ! i) \<noteq> None) [0..<length (outputs m)])
        @ [MainLoopQuit, ThreadJoin]) \<and>
   last (snd (capture_manager_stop m)) = ThreadJoin"
  by (simp add: capture_manager_stop_def close_outputs_enumerate positions_enumerate_0)

theorem capture_manager_stop_calls_witness:
  "snd (capture_manager_stop (example_manager []
      [example_output True True, example_output True False, example_output False True]))
     = [OutputClose 0, OutputClose 2, MainLoopQuit, ThreadJoin] \<and>
   map output_priv (outputs (fst (capture_manager_stop (example_manager []
      [example_output True True, example_output True False, example_output False True]))))
     = [[''close''], [], [''close'']] \<and>
   snd (capture_manager_stop (example_manager [] [])) = [MainLoopQuit, ThreadJoin]"
proof -
  note d = example_manager_lists example_output_def closed_output_def
  have a: "capture_manager_stop (example_manager []
      [example_output True True, example_output True False, example_output False True])
    = (example_manager []
        [example_output True True, example_output True False, example_output False True]
        \<lparr>outputs := map closed_output
          [example_output True True, example_output True False, example_output False True]\<rparr>,
       [OutputClose 0, OutputClose 2, MainLoopQuit, ThreadJoin])"
    using capture_manager_stop_calls [of "example_manager []
      [example_output True True, example_output True False, example_output False True]"]
    by (simp add: d)
  have b: "snd (capture_manager_stop (example_manager [] [])) = [MainLoopQuit, ThreadJoin]"
    using capture_manager_stop_calls [of "example_manager [] []"] by (simp add: d)
  from a b show ?thesis by (simp add: d)
qed

lemma count_list_distinct:
  "distinct xs \<Longrightarrow> count_list xs x = (if x \<in> set xs then 1 else 0)"
  by (induction xs) auto

lemma count_list_positions:
  "count_list (map f (filter P [0..<n])) (f i) = (if i < n \<and> P i then 1 else 0)"
  if "inj f" for f :: "nat \<Rightarrow> 'a"
  using that by (simp add: count_list_map_conv count_list_distinct)

text \<open>
  C6. For every packet \<^verbatim>\<open>capture_manager_output_packet\<close> calls the write operation of
  every sink that has one, in registration order, and does nothing for a sink that has none:
  each sink with a write operation is called exactly once with the packet, each sink
  without one not at all.
\<close>

theorem capture_manager_output_packet_calls:
  "capture_manager_output_packet m p =
     (m\<lparr>outputs := map (written_output p) (outputs m)\<rparr>,
      map (\<lambda>i. OutputWrite i p)
        (filter (\<lambda>i. write (outputs m ! i) \<noteq> None) [0..<length (outputs m)])) \<and>
   (\<forall>i<length (outputs m).
      count_list (snd (capture_manager_output_packet m p)) (OutputWrite i p)
        = (if write (outputs m ! i) = None then 0 else 1))"
proof -
  have eq: "capture_manager_output_packet m p =
     (m\<lparr>outputs := map (written_output p) (outputs m)\<rparr>,
      map (\<lambda>i. OutputWrite i p)
        (filter (\<lambda>i. write (outputs m ! i) \<noteq> None) [0..<length (outputs m)]))"
    by (simp add: capture_manager_output_packet_def write_outputs_enumerate positions_enumerate_0)
  have "inj (\<lambda>i. OutputWrite i p)" by (simp add: inj_def)
  note c = count_list_positions [OF this]
  show ?thesis unfolding eq by (simp add: c)
qed

theorem capture_manager_output_packet_calls_witness:
  "snd (capture_manager_output_packet (example_manager []
      [example_output True True, example_output False True, example_output True False])
      (example_packet 5))
     = [OutputWrite 0 (example_packet 5), OutputWrite 2 (example_packet 5)] \<and>
   map output_priv (outputs (fst (capture_manager_output_packet (example_manager []
      [example_output True True, example_output False True, example_output True False])
      (example_packet 5))))
     = [[''write''], [], [''write'']] \<and>
   count_list (snd (capture_manager_output_packet (example_manager []
      [example_output True True, example_output False True, example_output True False])
      (example_packet 5))) (OutputWrite 2 (example_packet 5)) = 1 \<and>
   count_list (snd (capture_manager_output_packet (example_manager []
      [example_output True True, example_output False True, example_output True False])
      (example_packet 5))) (OutputWrite 1 (example_packet 5)) = 0"
proof -
  note d = example_manager_lists example_output_def written_output_def
  let ?m = "example_manager []
      [example_output True True, example_output False True, example_output True False]"
  note t = capture_manager_output_packet_calls [of ?m "example_packet 5"]
  from t have a: "capture_manager_output_packet ?m (example_packet 5)
    = (?m\<lparr>outputs := map (written_output (example_packet 5))
          [example_output True True, example_output False True, example_output True False]\<rparr>,
       [OutputWrite 0 (example_packet 5), OutputWrite 2 (example_packet 5)])"
    by (simp add: d)
  have l: "(2::nat) < length (outputs ?m)" "(1::nat) < length (outputs ?m)" by (simp_all add: d)
  from t l(1) have c2: "count_list (snd (capture_manager_output_packet ?m (example_packet 5)))
      (OutputWrite 2 (example_packet 5)) = (if write (outputs ?m ! 2) = None then 0 else 1)"
    by blast
  from t l(2) have c1: "count_list (snd (capture_manager_output_packet ?m (example_packet 5)))
      (OutputWrite 1 (example_packet 5)) = (if write (outputs ?m ! 1) = None then 0 else 1)"
    by blast
  have w: "write (outputs ?m ! 2) \<noteq> None" "write (outputs ?m ! 1) = None" by (simp_all add: d)
  from a c1 c2 w show ?thesis by (simp add: d)
qed


section \<open>Status\<close>

lemma count_inputs_lengths:
  "count_inputs ins (a, b, c) =
     (a + int (length (filter (\<lambda>input. mode input \<noteq> CAPTURE_MODE_OFFLINE) ins)),
      b + int (length (filter (\<lambda>input. mode input = CAPTURE_MODE_OFFLINE) ins)),
      c + int (length (filter (\<lambda>input. mode input = CAPTURE_MODE_OFFLINE
                                  \<and> \<not> destroyed (source input)) ins)))"
  by (induction ins arbitrary: a b c) (simp_all add: g_source_is_destroyed_def)

lemma status_text_table:
  "status_text True True False l = ''Online (Paused)'' \<and>
   status_text True False True l = ''Offline (Paused)'' \<and>
   status_text True True True l = ''Mixed (Paused)'' \<and>
   status_text True False False l = ''Mixed (Paused)'' \<and>
   status_text False True False True = ''Online (Loading)'' \<and>
   status_text False False True True = ''Offline (Loading)'' \<and>
   status_text False True True True = ''Mixed (Loading)'' \<and>
   status_text False False False True = ''Mixed (Loading)'' \<and>
   status_text False True False False = ''Online'' \<and>
   status_text False False True False = ''Offline'' \<and>
   status_text False True True False = ''Mixed'' \<and>
   status_text False False False False = ''Mixed''"
  by (simp add: status_text_def status_category_def status_suffix_def)

text \<open>
  C4. The status description is the function \<open>status_text\<close> of four truth values: the
  pause flag, whether some source is online (not in offline mode), whether some source is
  offline, and whether some offline source is still loading. Its category is Online with
  online sources only, Offline with offline sources only and Mixed otherwise; its suffix is
  Paused when paused, else Loading when an offline source is loading, else empty.
\<close>

theorem capture_status_desc_text:
  "capture_status_desc m =
     status_text (paused m) (0 < online_count m) (0 < offline_count m) (0 < loading_count m)"
  by (simp add: capture_status_desc_def count_inputs_lengths online_count_def offline_count_def
      loading_count_def status_text_def status_category_def status_suffix_def)

theorem capture_status_desc_text_witness:
  "capture_status_desc (example_manager
      [example_input CAPTURE_MODE_LIVE False None, example_input CAPTURE_MODE_OFFLINE False None] [])
     = ''Mixed (Loading)'' \<and>
   capture_status_desc (capture_manager_set_pause (example_manager
      [example_input CAPTURE_MODE_LIVE False None, example_input CAPTURE_MODE_OFFLINE False None] [])
      True)
     = ''Mixed (Paused)'' \<and>
   capture_status_desc (example_manager [example_input CAPTURE_MODE_OFFLINE True None] [])
     = ''Offline'' \<and>
   capture_status_desc (example_manager [example_input CAPTURE_MODE_LISTENER False None] [])
     = ''Online'' \<and>
   capture_status_desc (example_manager [] []) = ''Mixed''"
proof -
  note d = example_manager_lists example_input_def capture_manager_set_pause_def
    online_count_def offline_count_def loading_count_def
    status_text_def status_category_def status_suffix_def
  let ?two = "[example_input CAPTURE_MODE_LIVE False None,
               example_input CAPTURE_MODE_OFFLINE False None]"
  have a: "capture_status_desc (example_manager ?two []) = ''Mixed (Loading)''"
    using capture_status_desc_text [of "example_manager ?two []"] by (simp add: d)
  have b: "capture_status_desc (capture_manager_set_pause (example_manager ?two []) True)
      = ''Mixed (Paused)''"
    using capture_status_desc_text [of "capture_manager_set_pause (example_manager ?two []) True"]
    by (simp add: d)
  have c: "capture_status_desc (example_manager [example_input CAPTURE_MODE_OFFLINE True None] [])
      = ''Offline''"
    using capture_status_desc_text
      [of "example_manager [example_input CAPTURE_MODE_OFFLINE True None] []"]
    by (simp add: d)
  have e: "capture_status_desc (example_manager [example_input CAPTURE_MODE_LISTENER False None] [])
      = ''Online''"
    using capture_status_desc_text
      [of "example_manager [example_input CAPTURE_MODE_LISTENER False None] []"]
    by (simp add: d)
  have f: "capture_status_desc (example_manager [] []) = ''Mixed''"
    using capture_status_desc_text [of "example_manager [] []"] by (simp add: d)
  from a b c e f show ?thesis by simp
qed

lemma inputs_online_iff:
  "inputs_online ins = (\<forall>input\<in>set ins. mode input \<noteq> CAPTURE_MODE_OFFLINE)"
  by (induction ins) simp_all

text \<open>
  C7. \<^verbatim>\<open>capture_is_online\<close> returns true exactly when no registered source is in
  offline mode; in particular it returns true for a manager without sources.
\<close>

theorem capture_is_online_iff:
  "capture_is_online m = (\<forall>input\<in>set (inputs m). mode input \<noteq> CAPTURE_MODE_OFFLINE) \<and>
   capture_is_online m = (offline_count m = 0) \<and>
   (inputs m = [] \<longrightarrow> capture_is_online m)"
  by (auto simp: capture_is_online_def inputs_online_iff offline_count_def filter_empty_conv)

theorem capture_is_online_iff_witness:
  "capture_is_online (example_manager [] []) \<and>
   capture_is_online (example_manager
      [example_input CAPTURE_MODE_LIVE False None, example_input CAPTURE_MODE_LISTENER False None] []) \<and>
   \<not> capture_is_online (example_manager
      [example_input CAPTURE_MODE_LIVE False None, example_input CAPTURE_MODE_OFFLINE False None] []) \<and>
   capture_sources_count (example_manager
      [example_input CAPTURE_MODE_LIVE False None, example_input CAPTURE_MODE_OFFLINE False None] []) = 2"
proof -
  note d = example_manager_lists example_input_def
  have a: "capture_is_online (example_manager [] [])"
    using capture_is_online_iff [of "example_manager [] []"] by (simp add: d)
  have b: "capture_is_online (example_manager
      [example_input CAPTURE_MODE_LIVE False None, example_input CAPTURE_MODE_LISTENER False None] [])"
    using capture_is_online_iff [of "example_manager
      [example_input CAPTURE_MODE_LIVE False None, example_input CAPTURE_MODE_LISTENER False None] []"]
    by (simp add: d)
  have c: "\<not> capture_is_online (example_manager
      [example_input CAPTURE_MODE_LIVE False None, example_input CAPTURE_MODE_OFFLINE False None] [])"
    using capture_is_online_iff [of "example_manager
      [example_input CAPTURE_MODE_LIVE False None, example_input CAPTURE_MODE_OFFLINE False None] []"]
    by (simp add: d)
  from a b c show ?thesis by (simp add: capture_sources_count_def d)
qed

end
